theory Spec2Isabelle
  imports Complex_Main "HOL-Library.Sublist"
begin

section \<open>JSON values and the Python operations the handlers apply to them\<close>

text \<open>
  Request bodies and the elements of a task list are arbitrary parsed JSON. A JSON object is
  a Python dict with string keys, modelled as a map, so that equality of two values is
  Python's \<^verbatim>\<open>==\<close> on dicts (key order is not significant). A float is modelled by the
  real number it denotes; NaN and the infinities are left out. A character is a code point
  below 256.
\<close>

datatype json =
    JNull
  | JBool bool
  | JInt int
  | JFloat real
  | JStr string
  | JList "json list"
  | JObj "string \<Rightarrow> json option"

datatype exn = AttributeError | TypeError | KeyError | IndexError | LibraryError

text \<open>\<^verbatim>\<open>bool(x)\<close>, also the test of \<^verbatim>\<open>x or d\<close> and \<^verbatim>\<open>not x\<close>.\<close>

fun truthy :: "json \<Rightarrow> bool" where
  "truthy JNull = False"
| "truthy (JBool b) = b"
| "truthy (JInt i) = (i \<noteq> 0)"
| "truthy (JFloat r) = (r \<noteq> 0)"
| "truthy (JStr s) = (s \<noteq> [])"
| "truthy (JList xs) = (xs \<noteq> [])"
| "truthy (JObj m) = (m \<noteq> Map.empty)"

definition py_or :: "json \<Rightarrow> json \<Rightarrow> json" where
  "py_or x d = (if truthy x then x else d)"

text \<open>\<^verbatim>\<open>d.get(k)\<close> and \<^verbatim>\<open>d.get(k, default)\<close>: only a dict has the method; a missing key
  gives \<^verbatim>\<open>None\<close>, which is also what JSON null is.\<close>

fun dict_get :: "json \<Rightarrow> string \<Rightarrow> exn + json" where
  "dict_get (JObj m) k = Inr (case m k of None \<Rightarrow> JNull | Some v \<Rightarrow> v)"
| "dict_get _ k = Inl AttributeError"

fun dict_get_default :: "json \<Rightarrow> string \<Rightarrow> json \<Rightarrow> exn + json" where
  "dict_get_default (JObj m) k d = Inr (case m k of None \<Rightarrow> d | Some v \<Rightarrow> v)"
| "dict_get_default _ k d = Inl AttributeError"

text \<open>\<^verbatim>\<open>t["id"]\<close>: KeyError on a dict without the key, TypeError on anything else.\<close>

fun subscript :: "json \<Rightarrow> string \<Rightarrow> exn + json" where
  "subscript (JObj m) k = (case m k of None \<Rightarrow> Inl KeyError | Some v \<Rightarrow> Inr v)"
| "subscript _ k = Inl TypeError"

text \<open>\<^verbatim>\<open>k in body\<close> for a string \<open>k\<close>: key membership in a dict, element membership in a
  list, substring test in a string, TypeError on a number or a boolean.\<close>

fun is_str :: "string \<Rightarrow> json \<Rightarrow> bool" where
  "is_str k (JStr s) = (s = k)"
| "is_str k _ = False"

fun py_in :: "string \<Rightarrow> json \<Rightarrow> exn + bool" where
  "py_in k (JObj m) = Inr (m k \<noteq> None)"
| "py_in k (JList xs) = Inr (list_ex (is_str k) xs)"
| "py_in k (JStr s) = Inr (sublist k s)"
| "py_in k _ = Inl TypeError"

text \<open>\<^verbatim>\<open>str.strip()\<close> removes the characters for which \<^verbatim>\<open>str.isspace\<close> holds.\<close>

definition isspace :: "char \<Rightarrow> bool" where
  "isspace c = (of_char c \<in> {9, 10, 11, 12, 13, 28, 29, 30, 31, 32, 133, 160 :: nat})"

definition strip :: "string \<Rightarrow> string" where
  "strip s = rev (dropWhile isspace (rev (dropWhile isspace s)))"

fun py_strip :: "json \<Rightarrow> exn + string" where
  "py_strip (JStr s) = Inr (strip s)"
| "py_strip _ = Inl AttributeError"

text \<open>\<^verbatim>\<open>str(n)\<close> for an integer.\<close>

definition digit_char :: "nat \<Rightarrow> char" where
  "digit_char d = char_of (48 + d)"

fun digits :: "nat \<Rightarrow> string" where
  "digits n = (if n < 10 then [digit_char n] else digits (n div 10) @ [digit_char (n mod 10)])"

declare digits.simps [simp del]

definition str_int :: "int \<Rightarrow> string" where
  "str_int i = (if i < 0 then CHR ''-'' # digits (nat (- i)) else digits (nat i))"

text \<open>\<^verbatim>\<open>header.split(" ", 1)\<close>: at most one split, at the first space.\<close>

definition split1 :: "string \<Rightarrow> string list" where
  "split1 s = (case dropWhile (\<lambda>c. c \<noteq> CHR '' '') s of
                 [] \<Rightarrow> [s]
               | _ # rest \<Rightarrow> [takeWhile (\<lambda>c. c \<noteq> CHR '' '') s, rest])"

text \<open>Keys of an in-memory dict: Python identifies keys that are equal under \<^verbatim>\<open>==\<close>
  (\<^verbatim>\<open>True\<close>, \<^verbatim>\<open>1\<close> and \<^verbatim>\<open>1.0\<close> are one key); lists and dicts are unhashable.\<close>

datatype pykey = KNone | KNum real | KStr string

fun hash_key :: "json \<Rightarrow> exn + pykey" where
  "hash_key JNull = Inr KNone"
| "hash_key (JBool b) = Inr (KNum (if b then 1 else 0))"
| "hash_key (JInt i) = Inr (KNum (of_int i))"
| "hash_key (JFloat r) = Inr (KNum r)"
| "hash_key (JStr s) = Inr (KStr s)"
| "hash_key (JList xs) = Inl TypeError"
| "hash_key (JObj m) = Inl TypeError"

section \<open>The three persisted documents\<close>

text \<open>
  The documents have the shapes the module's docstring gives them and every write of the
  program keeps: users.json is a list of users, todos.json maps a username to a list of
  tasks, sessions.json maps a token to a session. The elements of a task list are arbitrary
  JSON, since the import route stores what it is given. A file that cannot be opened or
  parsed is \<open>None\<close>.
\<close>

record user =
  username :: string
  password_hash :: string
  createdAt :: string

record session =
  session_username :: string
  session_createdAt :: string

datatype path = USERS_FILE | TODOS_FILE | SESSIONS_FILE

datatype document =
    Users "user list"
  | Todos "string \<Rightarrow> json list option"
  | Sessions "string \<Rightarrow> session option"

record files =
  users_json :: "user list option"
  todos_json :: "(string \<Rightarrow> json list option) option"
  sessions_json :: "(string \<Rightarrow> session option) option"

text \<open>The \<^verbatim>\<open>try\<close> block of \<^verbatim>\<open>read_json\<close>: \<open>None\<close> when \<^verbatim>\<open>open\<close> or
  \<^verbatim>\<open>json.load\<close> raises.\<close>

fun open_load :: "files \<Rightarrow> path \<Rightarrow> document option" where
  "open_load fs USERS_FILE = map_option Users (users_json fs)"
| "open_load fs TODOS_FILE = map_option Todos (todos_json fs)"
| "open_load fs SESSIONS_FILE = map_option Sessions (sessions_json fs)"

text \<open>The \<^verbatim>\<open>{}\<close> of the except branch, at the type of the document stored under the path.\<close>

definition empty_mapping :: "path \<Rightarrow> document" where
  "empty_mapping p = (if p = SESSIONS_FILE then Sessions Map.empty else Todos Map.empty)"

definition read_json :: "files \<Rightarrow> path \<Rightarrow> document" where
  "read_json fs p =
     (case open_load fs p of
        Some d \<Rightarrow> d
      | None \<Rightarrow> if p = SESSIONS_FILE \<or> p = TODOS_FILE then empty_mapping p else Users [])"

text \<open>\<^verbatim>\<open>write_json\<close> replaces the whole file. The three \<^verbatim>\<open>save_\<close> functions are its only
  callers and write each document under its own path.\<close>

fun write_json :: "files \<Rightarrow> path \<Rightarrow> document \<Rightarrow> files" where
  "write_json fs USERS_FILE (Users us) = fs\<lparr>users_json := Some us\<rparr>"
| "write_json fs TODOS_FILE (Todos m) = fs\<lparr>todos_json := Some m\<rparr>"
| "write_json fs SESSIONS_FILE (Sessions s) = fs\<lparr>sessions_json := Some s\<rparr>"
| "write_json fs _ _ = fs"

text \<open>\<^verbatim>\<open>read_json(...) or []\<close> and \<^verbatim>\<open>read_json(...) or {}\<close>.\<close>

definition load_users :: "files \<Rightarrow> user list" where
  "load_users fs = (case read_json fs USERS_FILE of Users us \<Rightarrow> us | _ \<Rightarrow> [])"

definition save_users :: "files \<Rightarrow> user list \<Rightarrow> files" where
  "save_users fs us = write_json fs USERS_FILE (Users us)"

definition load_todos_map :: "files \<Rightarrow> string \<Rightarrow> json list option" where
  "load_todos_map fs = (case read_json fs TODOS_FILE of Todos m \<Rightarrow> m | _ \<Rightarrow> Map.empty)"

definition save_todos_map :: "files \<Rightarrow> (string \<Rightarrow> json list option) \<Rightarrow> files" where
  "save_todos_map fs m = write_json fs TODOS_FILE (Todos m)"

definition load_sessions :: "files \<Rightarrow> string \<Rightarrow> session option" where
  "load_sessions fs = (case read_json fs SESSIONS_FILE of Sessions s \<Rightarrow> s | _ \<Rightarrow> Map.empty)"

definition save_sessions :: "files \<Rightarrow> (string \<Rightarrow> session option) \<Rightarrow> files" where
  "save_sessions fs s = write_json fs SESSIONS_FILE (Sessions s)"

section \<open>Responses and exceptions\<close>

text \<open>A handler returns the response and the files as it leaves them. An exception that no
  handler catches is \<open>Unhandled\<close> (the framework answers 500); what was written before it
  was raised stays written.\<close>

datatype response = Response nat json | Unhandled exn

definition raising :: "exn + 'a \<Rightarrow> files \<Rightarrow> ('a \<Rightarrow> response \<times> files) \<Rightarrow> response \<times> files" where
  "raising x fs f = (case x of Inl e \<Rightarrow> (Unhandled e, fs) | Inr v \<Rightarrow> f v)"

definition error_body :: "string \<Rightarrow> json" where
  "error_body msg = JObj [''error'' \<mapsto> JStr msg]"

definition ok_body :: json where
  "ok_body = JObj [''ok'' \<mapsto> JBool True]"

text \<open>\<^verbatim>\<open>request.get_json() or {}\<close>.\<close>

definition body_or_empty :: "json \<Rightarrow> json" where
  "body_or_empty b = py_or b (JObj Map.empty)"

text \<open>\<^verbatim>\<open>todos_map.get(username, [])\<close>.\<close>

definition get_list :: "(string \<Rightarrow> json list option) \<Rightarrow> string \<Rightarrow> json list" where
  "get_list todos_map u = (case todos_map u of None \<Rightarrow> [] | Some l \<Rightarrow> l)"

section \<open>Auth helpers\<close>

text \<open>The token drawn by \<^verbatim>\<open>secrets.token_urlsafe(32)\<close> and the clock reading are inputs.\<close>

definition create_token :: "files \<Rightarrow> string \<Rightarrow> string \<Rightarrow> string \<Rightarrow> string \<times> files" where
  "create_token fs uname token now =
     (let sessions = load_sessions fs;
          sessions = sessions(token \<mapsto> \<lparr>session_username = uname, session_createdAt = now\<rparr>)
      in (token, save_sessions fs sessions))"

text \<open>The decorator: the Authorization header (absent: the empty string), then the wrapped
  handler applied to \<^verbatim>\<open>request.current_user\<close>. A stored session is a dict of two keys and so
  never falsy: \<^verbatim>\<open>not s\<close> holds exactly when the token is not a key.\<close>

definition token_required ::
  "files \<Rightarrow> string option \<Rightarrow> (string \<Rightarrow> response \<times> files) \<Rightarrow> response \<times> files" where
  "token_required fs auth f =
     (let header = (case auth of None \<Rightarrow> [] | Some h \<Rightarrow> h) in
      if \<not> prefix ''Bearer '' header then (Response 401 (error_body ''missing token''), fs)
      else (case split1 header of
              [_, token] \<Rightarrow>
                (case load_sessions fs token of
                   None \<Rightarrow> (Response 401 (error_body ''invalid token''), fs)
                 | Some s \<Rightarrow> f (session_username s))
            | _ \<Rightarrow> (Unhandled IndexError, fs)))"

section \<open>Routes\<close>

text \<open>The signup and login routes. \<^verbatim>\<open>generate_password_hash\<close> and \<^verbatim>\<open>check_password_hash\<close>
  are werkzeug's and are parameters here, the first with the salt it draws as an argument;
  either may raise. The token that \<^verbatim>\<open>create_token\<close> would draw and the clock reading are
  inputs of the login route.\<close>

definition api_signup ::
  "files \<Rightarrow> json \<Rightarrow> (string \<Rightarrow> json \<Rightarrow> exn + string) \<Rightarrow> string \<Rightarrow> string \<Rightarrow> response \<times> files" where
  "api_signup fs body_in generate_password_hash salt now =
     (let body = body_or_empty body_in in
      raising (dict_get body ''username'') fs (\<lambda>v.
      raising (py_strip (py_or v (JStr []))) fs (\<lambda>uname.
      raising (dict_get body ''password'') fs (\<lambda>pv.
        let password = py_or pv (JStr []) in
        if uname = [] \<or> \<not> truthy password
        then (Response 400 (error_body ''username and password are required''), fs)
        else
          let users = load_users fs in
          if list_ex (\<lambda>u. username u = uname) users
          then (Response 400 (error_body ''username exists''), fs)
          else
            raising (generate_password_hash salt password) fs (\<lambda>ph.
              let meta = \<lparr>username = uname, password_hash = ph, createdAt = now\<rparr>;
                  users = users @ [meta];
                  fs = save_users fs users;
                  todos_map = load_todos_map fs;
                  todos_map = (if todos_map uname = None then todos_map(uname \<mapsto> [])
                               else todos_map);
                  fs = save_todos_map fs todos_map
              in (Response 201
                    (JObj [''ok'' \<mapsto> JBool True,
                           ''user'' \<mapsto> JObj [''username'' \<mapsto> JStr uname,
                                              ''createdAt'' \<mapsto> JStr (createdAt meta)]]),
                  fs))))))"

definition api_login ::
  "files \<Rightarrow> json \<Rightarrow> (string \<Rightarrow> json \<Rightarrow> exn + bool) \<Rightarrow> string \<Rightarrow> string \<Rightarrow> response \<times> files" where
  "api_login fs body_in check_password_hash token now =
     (let body = body_or_empty body_in in
      raising (dict_get body ''username'') fs (\<lambda>v.
      raising (py_strip (py_or v (JStr []))) fs (\<lambda>uname.
      raising (dict_get body ''password'') fs (\<lambda>pv.
        let password = py_or pv (JStr []) in
        if uname = [] \<or> \<not> truthy password
        then (Response 400 (error_body ''username and password required''), fs)
        else
          let users = load_users fs in
          case find (\<lambda>u. username u = uname) users of
            None \<Rightarrow> (Response 401 (error_body ''invalid credentials''), fs)
          | Some usr \<Rightarrow>
              raising (check_password_hash (password_hash usr) password) fs (\<lambda>ok.
                if \<not> ok then (Response 401 (error_body ''invalid credentials''), fs)
                else
                  let (token, fs) = create_token fs uname token now in
                  (Response 200
                     (JObj [''ok'' \<mapsto> JBool True,
                            ''token'' \<mapsto> JStr token,
                            ''user'' \<mapsto> JObj [''username'' \<mapsto> JStr uname,
                                               ''createdAt'' \<mapsto> JStr (createdAt usr)]]),
                   fs))))))"

definition api_logout :: "files \<Rightarrow> string option \<Rightarrow> response \<times> files" where
  "api_logout fs auth =
     token_required fs auth (\<lambda>_.
       let header = (case auth of None \<Rightarrow> [] | Some h \<Rightarrow> h) in
       case split1 header of
         [_, token] \<Rightarrow>
           (let sessions = load_sessions fs in
            if sessions token \<noteq> None
            then (Response 200 ok_body, save_sessions fs (sessions(token := None)))
            else (Response 200 ok_body, fs))
       | _ \<Rightarrow> (Unhandled IndexError, fs))"

definition api_get_tasks :: "files \<Rightarrow> string option \<Rightarrow> response \<times> files" where
  "api_get_tasks fs auth =
     token_required fs auth (\<lambda>uname.
       let todos_map = load_todos_map fs in
       (Response 200 (JObj [''todos'' \<mapsto> JList (get_list todos_map uname)]), fs))"

text \<open>\<^verbatim>\<open>"id_" + str(int(time.time()*1000)) + "_" + secrets.token_hex(4)\<close>; the clock reading in
  milliseconds and the hex draw are inputs.\<close>

definition make_task_id :: "int \<Rightarrow> string \<Rightarrow> string" where
  "make_task_id millis hex = ''id_'' @ str_int millis @ ''_'' @ hex"

definition api_create_task ::
  "files \<Rightarrow> string option \<Rightarrow> json \<Rightarrow> int \<Rightarrow> string \<Rightarrow> string \<Rightarrow> response \<times> files" where
  "api_create_task fs auth body_in millis hex now =
     token_required fs auth (\<lambda>uname.
       let body = body_or_empty body_in in
       raising (dict_get body ''title'') fs (\<lambda>v.
       raising (py_strip (py_or v (JStr []))) fs (\<lambda>title.
       if title = [] then (Response 400 (error_body ''title required''), fs)
       else
         let task_id = make_task_id millis hex in
         raising (dict_get_default body ''done'' (JBool False)) fs (\<lambda>d.
         raising (dict_get_default body ''important'' (JBool False)) fs (\<lambda>i.
           let task = JObj [''id'' \<mapsto> JStr task_id,
                            ''title'' \<mapsto> JStr title,
                            ''done'' \<mapsto> JBool (truthy d),
                            ''important'' \<mapsto> JBool (truthy i),
                            ''createdAt'' \<mapsto> JStr now];
               todos_map = load_todos_map fs;
               lst = get_list todos_map uname;
               lst = task # lst;
               todos_map = todos_map(uname \<mapsto> lst)
           in (Response 201 (JObj [''ok'' \<mapsto> JBool True, ''task'' \<mapsto> task]),
               save_todos_map fs todos_map))))))"

text \<open>The three guarded assignments of the update route, on the dict \<open>t\<close> of the matching
  task.\<close>

definition set_title :: "json \<Rightarrow> (string \<Rightarrow> json option) \<Rightarrow> exn + (string \<Rightarrow> json option)" where
  "set_title body t =
     (case py_in ''title'' body of
        Inl e \<Rightarrow> Inl e
      | Inr False \<Rightarrow> Inr t
      | Inr True \<Rightarrow>
          (case dict_get_default body ''title'' (case t ''title'' of None \<Rightarrow> JNull | Some v \<Rightarrow> v) of
             Inl e \<Rightarrow> Inl e
           | Inr v \<Rightarrow> Inr (t(''title'' \<mapsto> v))))"

definition set_flag ::
  "string \<Rightarrow> json \<Rightarrow> (string \<Rightarrow> json option) \<Rightarrow> exn + (string \<Rightarrow> json option)" where
  "set_flag k body t =
     (case py_in k body of
        Inl e \<Rightarrow> Inl e
      | Inr False \<Rightarrow> Inr t
      | Inr True \<Rightarrow>
          (case dict_get body k of
             Inl e \<Rightarrow> Inl e
           | Inr v \<Rightarrow> Inr (t(k \<mapsto> JBool (truthy v)))))"

definition apply_patch :: "json \<Rightarrow> (string \<Rightarrow> json option) \<Rightarrow> exn + (string \<Rightarrow> json option)" where
  "apply_patch body t =
     (case set_title body t of
        Inl e \<Rightarrow> Inl e
      | Inr t1 \<Rightarrow>
          (case set_flag ''done'' body t1 of
             Inl e \<Rightarrow> Inl e
           | Inr t2 \<Rightarrow> set_flag ''important'' body t2))"

text \<open>The \<^verbatim>\<open>for t in lst\<close> loop of the update route: \<open>None\<close> when it runs to its end, else the
  updated task and the list with that task updated in place.\<close>

fun update_loop :: "string \<Rightarrow> json \<Rightarrow> json list \<Rightarrow> exn + (json \<times> json list) option" where
  "update_loop task_id body [] = Inr None"
| "update_loop task_id body (t # ts) =
     (case dict_get t ''id'' of
        Inl e \<Rightarrow> Inl e
      | Inr v \<Rightarrow>
          if is_str task_id v
          then (case t of
                  JObj m \<Rightarrow>
                    (case apply_patch body m of
                       Inl e \<Rightarrow> Inl e
                     | Inr m' \<Rightarrow> Inr (Some (JObj m', JObj m' # ts)))
                | _ \<Rightarrow> Inl AttributeError)
          else (case update_loop task_id body ts of
                  Inl e \<Rightarrow> Inl e
                | Inr None \<Rightarrow> Inr None
                | Inr (Some (t', ts')) \<Rightarrow> Inr (Some (t', t # ts'))))"

definition api_update_task ::
  "files \<Rightarrow> string option \<Rightarrow> string \<Rightarrow> json \<Rightarrow> response \<times> files" where
  "api_update_task fs auth task_id body_in =
     token_required fs auth (\<lambda>uname.
       let body = body_or_empty body_in;
           todos_map = load_todos_map fs;
           lst = get_list todos_map uname
       in raising (update_loop task_id body lst) fs (\<lambda>r.
            case r of
              Some (t, lst') \<Rightarrow>
                (Response 200 (JObj [''ok'' \<mapsto> JBool True, ''task'' \<mapsto> t]),
                 save_todos_map fs (todos_map(uname \<mapsto> lst')))
            | None \<Rightarrow> (Response 404 (error_body ''task not found''), fs)))"

text \<open>\<^verbatim>\<open>[t for t in lst if t.get("id") != task_id]\<close>.\<close>

fun delete_filter :: "string \<Rightarrow> json list \<Rightarrow> exn + json list" where
  "delete_filter task_id [] = Inr []"
| "delete_filter task_id (t # ts) =
     (case dict_get t ''id'' of
        Inl e \<Rightarrow> Inl e
      | Inr v \<Rightarrow>
          (case delete_filter task_id ts of
             Inl e \<Rightarrow> Inl e
           | Inr r \<Rightarrow> Inr (if is_str task_id v then r else t # r)))"

definition api_delete_task :: "files \<Rightarrow> string option \<Rightarrow> string \<Rightarrow> response \<times> files" where
  "api_delete_task fs auth task_id =
     token_required fs auth (\<lambda>uname.
       let todos_map = load_todos_map fs;
           lst = get_list todos_map uname
       in raising (delete_filter task_id lst) fs (\<lambda>newlst.
            (Response 200 ok_body, save_todos_map fs (todos_map(uname \<mapsto> newlst)))))"

text \<open>\<^verbatim>\<open>{t["id"]: t for t in lst}\<close>, from the dict built so far, and
  \<^verbatim>\<open>[id_to_task[i] for i in order if i in id_to_task]\<close>.\<close>

fun id_to_task :: "json list \<Rightarrow> (pykey \<Rightarrow> json option) \<Rightarrow> exn + (pykey \<Rightarrow> json option)" where
  "id_to_task [] d = Inr d"
| "id_to_task (t # ts) d =
     (case subscript t ''id'' of
        Inl e \<Rightarrow> Inl e
      | Inr v \<Rightarrow>
          (case hash_key v of
             Inl e \<Rightarrow> Inl e
           | Inr k \<Rightarrow> id_to_task ts (d(k \<mapsto> t))))"

fun pick_order :: "(pykey \<Rightarrow> json option) \<Rightarrow> json list \<Rightarrow> exn + json list" where
  "pick_order d [] = Inr []"
| "pick_order d (i # idxs) =
     (case hash_key i of
        Inl e \<Rightarrow> Inl e
      | Inr k \<Rightarrow>
          (case pick_order d idxs of
             Inl e \<Rightarrow> Inl e
           | Inr r \<Rightarrow> Inr (case d k of None \<Rightarrow> r | Some t \<Rightarrow> t # r)))"

definition api_reorder :: "files \<Rightarrow> string option \<Rightarrow> json \<Rightarrow> response \<times> files" where
  "api_reorder fs auth body_in =
     token_required fs auth (\<lambda>uname.
       let body = body_or_empty body_in in
       raising (dict_get body ''order'') fs (\<lambda>ord.
         case ord of
           JList order \<Rightarrow>
             (let todos_map = load_todos_map fs;
                  lst = get_list todos_map uname
              in raising (id_to_task lst Map.empty) fs (\<lambda>d.
                 raising (pick_order d order) fs (\<lambda>newlst.
                   (Response 200 ok_body, save_todos_map fs (todos_map(uname \<mapsto> newlst))))))
         | _ \<Rightarrow> (Response 400 (error_body ''order must be list of ids''), fs)))"

definition api_export :: "files \<Rightarrow> string option \<Rightarrow> string \<Rightarrow> response \<times> files" where
  "api_export fs auth now =
     token_required fs auth (\<lambda>uname.
       let todos_map = load_todos_map fs in
       (Response 200
          (JObj [''meta'' \<mapsto> JObj [''user'' \<mapsto> JStr uname, ''exportedAt'' \<mapsto> JStr now],
                 ''todos'' \<mapsto> JList (get_list todos_map uname)]),
        fs))"

definition api_import :: "files \<Rightarrow> string option \<Rightarrow> json \<Rightarrow> response \<times> files" where
  "api_import fs auth body_in =
     token_required fs auth (\<lambda>uname.
       let body = body_or_empty body_in in
       raising (dict_get body ''todos'') fs (\<lambda>td.
         case td of
           JList todos \<Rightarrow>
             (let todos_map = load_todos_map fs in
              (Response 200 ok_body, save_todos_map fs (todos_map(uname \<mapsto> todos))))
         | _ \<Rightarrow> (Response 400 (error_body ''invalid payload''), fs)))"

section \<open>Sequences of requests\<close>

text \<open>A request to one of the routes that read or write the documents, with the values it
  draws (salt, token, clock, hex string) as arguments; \<open>handle\<close> dispatches it, \<open>run\<close> serves
  a list of requests one after the other and returns the files as the last one leaves
  them.\<close>

datatype request =
    Signup json string string
  | Login json string string
  | Logout "string option"
  | GetTasks "string option"
  | CreateTask "string option" json int string string
  | UpdateTask "string option" string json
  | DeleteTask "string option" string
  | Reorder "string option" json
  | Export "string option" string
  | Import "string option" json

fun handle ::
  "(string \<Rightarrow> json \<Rightarrow> exn + string) \<Rightarrow> (string \<Rightarrow> json \<Rightarrow> exn + bool) \<Rightarrow> files \<Rightarrow> request
   \<Rightarrow> response \<times> files" where
  "handle gen chk fs (Signup body salt now) = api_signup fs body gen salt now"
| "handle gen chk fs (Login body token now) = api_login fs body chk token now"
| "handle gen chk fs (Logout auth) = api_logout fs auth"
| "handle gen chk fs (GetTasks auth) = api_get_tasks fs auth"
| "handle gen chk fs (CreateTask auth body millis hex now) = api_create_task fs auth body millis hex now"
| "handle gen chk fs (UpdateTask auth task_id body) = api_update_task fs auth task_id body"
| "handle gen chk fs (DeleteTask auth task_id) = api_delete_task fs auth task_id"
| "handle gen chk fs (Reorder auth body) = api_reorder fs auth body"
| "handle gen chk fs (Export auth now) = api_export fs auth now"
| "handle gen chk fs (Import auth body) = api_import fs auth body"

fun run ::
  "(string \<Rightarrow> json \<Rightarrow> exn + string) \<Rightarrow> (string \<Rightarrow> json \<Rightarrow> exn + bool) \<Rightarrow> files \<Rightarrow> request list
   \<Rightarrow> files" where
  "run gen chk fs [] = fs"
| "run gen chk fs (r # rs) = run gen chk (snd (handle gen chk fs r)) rs"

section \<open>Vocabulary of the properties\<close>

text \<open>What the list route returns for a user: the stored list, or the empty list.\<close>

definition user_list :: "files \<Rightarrow> string \<Rightarrow> json list" where
  "user_list fs u = get_list (load_todos_map fs) u"

definition is_obj :: "json \<Rightarrow> bool" where
  "is_obj t = (case t of JObj _ \<Rightarrow> True | _ \<Rightarrow> False)"

text \<open>The task is a dict whose \<^verbatim>\<open>id\<close> is the given string.\<close>

definition has_id :: "string \<Rightarrow> json \<Rightarrow> bool" where
  "has_id task_id t = (case t of JObj m \<Rightarrow> m ''id'' = Some (JStr task_id) | _ \<Rightarrow> False)"

text \<open>A field of a task; \<open>None\<close> when the key is absent or the element is not a dict.\<close>

definition field :: "string \<Rightarrow> json \<Rightarrow> json option" where
  "field k t = (case t of JObj m \<Rightarrow> m k | _ \<Rightarrow> None)"

definition bearer :: "string \<Rightarrow> string option" where
  "bearer token = Some (''Bearer '' @ token)"


text \<open>A small store for the concrete instances: one user, one session, a given task list.\<close>

definition ann_session :: session where
  "ann_session = \<lparr>session_username = ''ann'', session_createdAt = ''2024-01-01T00:00:00''\<rparr>"

definition ann_files :: "json list \<Rightarrow> files" where
  "ann_files l =
     \<lparr>users_json = Some [],
      todos_json = Some [''ann'' \<mapsto> l],
      sessions_json = Some [''tok'' \<mapsto> ann_session]\<rparr>"

definition fields_a :: "string \<Rightarrow> json option" where
  "fields_a = [''id'' \<mapsto> JStr ''a'', ''title'' \<mapsto> JStr ''first'', ''done'' \<mapsto> JBool False,
               ''important'' \<mapsto> JBool False, ''createdAt'' \<mapsto> JStr ''t1'']"

definition task_a :: json where
  "task_a = JObj fields_a"

definition fields_b :: "string \<Rightarrow> json option" where
  "fields_b = [''id'' \<mapsto> JStr ''b'', ''title'' \<mapsto> JStr ''second'', ''done'' \<mapsto> JBool False,
               ''important'' \<mapsto> JBool True, ''createdAt'' \<mapsto> JStr ''t2'']"

definition task_b :: json where
  "task_b = JObj fields_b"

text \<open>The three guarded assignments of the update route in closed form, for a body that is
  a JSON object.\<close>

definition patched ::
  "(string \<Rightarrow> json option) \<Rightarrow> (string \<Rightarrow> json option) \<Rightarrow> (string \<Rightarrow> json option)" where
  "patched b m =
     (let m1 = (case b ''title'' of None \<Rightarrow> m | Some v \<Rightarrow> m(''title'' \<mapsto> v));
          m2 = (case b ''done'' of None \<Rightarrow> m1 | Some v \<Rightarrow> m1(''done'' \<mapsto> JBool (truthy v)))
      in (case b ''important'' of None \<Rightarrow> m2 | Some v \<Rightarrow> m2(''important'' \<mapsto> JBool (truthy v))))"


text \<open>The dict the create route builds, for a body that is a JSON object.\<close>

definition new_task :: "(string \<Rightarrow> json option) \<Rightarrow> string \<Rightarrow> string \<Rightarrow> string \<Rightarrow> json" where
  "new_task b task_id title now =
     JObj [''id'' \<mapsto> JStr task_id,
           ''title'' \<mapsto> JStr title,
           ''done'' \<mapsto> JBool (truthy (case b ''done'' of None \<Rightarrow> JBool False | Some v \<Rightarrow> v)),
           ''important'' \<mapsto> JBool (truthy (case b ''important'' of None \<Rightarrow> JBool False | Some v \<Rightarrow> v)),
           ''createdAt'' \<mapsto> JStr now]"

text \<open>The number a string of decimal digits denotes.\<close>

definition digits_val :: "string \<Rightarrow> nat" where
  "digits_val s = foldl (\<lambda>a c. 10 * a + (of_char c - 48)) 0 s"

text \<open>The dict key under which the reorder route files a task, when \<^verbatim>\<open>t["id"]\<close> and its
  hash do not raise; the key an element of \<^verbatim>\<open>order\<close> looks up, when it is hashable.\<close>

definition key_of :: "json \<Rightarrow> pykey option" where
  "key_of t = (case subscript t ''id'' of
                 Inl _ \<Rightarrow> None
               | Inr v \<Rightarrow> (case hash_key v of Inl _ \<Rightarrow> None | Inr k \<Rightarrow> Some k))"

definition id_key :: "json \<Rightarrow> pykey option" where
  "id_key i = (case hash_key i of Inl _ \<Rightarrow> None | Inr k \<Rightarrow> Some k)"

text \<open>The last task of the list filed under the key of \<open>i\<close>: what the dict built by the
  comprehension holds for it.\<close>

definition last_match :: "json list \<Rightarrow> json \<Rightarrow> json option" where
  "last_match lst i =
     (case id_key i of None \<Rightarrow> None | Some k \<Rightarrow> find (\<lambda>t. key_of t = Some k) (rev lst))"

text \<open>The reordering in the specification's words: for each id of the order, in that
  order, the tasks of the list that have this id.\<close>

definition reorder_as_stated :: "json list \<Rightarrow> json list \<Rightarrow> json list" where
  "reorder_as_stated lst order =
     concat (map (\<lambda>i. filter (\<lambda>t. id_key i \<noteq> None \<and> key_of t = id_key i) lst) order)"

definition task_a2 :: json where
  "task_a2 = JObj (fields_a(''title'' \<mapsto> JStr ''again''))"

text \<open>The request is a login whose token draw is \<open>tok\<close>; the request is a logout with the
  header \<^verbatim>\<open>Bearer tok\<close>.\<close>

fun issues :: "string \<Rightarrow> request \<Rightarrow> bool" where
  "issues tok (Login body token now) = (token = tok)"
| "issues tok _ = False"

fun revokes :: "string \<Rightarrow> request \<Rightarrow> bool" where
  "revokes tok (Logout auth) = (auth = bearer tok)"
| "revokes tok _ = False"

section \<open>Properties\<close>

subsection \<open>Reading back what was written\<close>

lemma load_sessions_simp:
  "load_sessions fs = (case sessions_json fs of None \<Rightarrow> Map.empty | Some s \<Rightarrow> s)"
  by (simp add: load_sessions_def read_json_def empty_mapping_def split: option.splits)

lemma load_todos_map_simp:
  "load_todos_map fs = (case todos_json fs of None \<Rightarrow> Map.empty | Some s \<Rightarrow> s)"
  by (simp add: load_todos_map_def read_json_def empty_mapping_def split: option.splits)

lemma load_sessions_save_todos [simp]: "load_sessions (save_todos_map fs m) = load_sessions fs"
  by (simp add: load_sessions_simp save_todos_map_def)

lemma load_todos_save_todos [simp]: "load_todos_map (save_todos_map fs m) = m"
  by (simp add: load_todos_map_simp save_todos_map_def)

lemma load_sessions_save_sessions [simp]: "load_sessions (save_sessions fs s) = s"
  by (simp add: load_sessions_simp save_sessions_def)

lemma load_todos_save_sessions [simp]:
  "load_todos_map (save_sessions fs m) = load_todos_map fs"
  by (simp add: load_todos_map_simp save_sessions_def)

lemma users_save_todos [simp]: "users_json (save_todos_map fs m) = users_json fs"
  by (simp add: save_todos_map_def)

lemma sessions_save_todos [simp]: "sessions_json (save_todos_map fs m) = sessions_json fs"
  by (simp add: save_todos_map_def)

lemma token_required_ok:
  "load_sessions fs t = Some s \<Longrightarrow> token_required fs (bearer t) f = f (session_username s)"
  by (simp add: token_required_def split1_def bearer_def)

lemma token_required_invalid:
  "load_sessions fs t = None \<Longrightarrow>
   token_required fs (bearer t) f = (Response 401 (error_body ''invalid token''), fs)"
  by (simp add: token_required_def split1_def bearer_def)

lemma body_or_empty_obj [simp]: "body_or_empty (JObj b) = JObj b"
  by (simp add: body_or_empty_def py_or_def)

lemma is_str_iff: "is_str k v \<longleftrightarrow> v = JStr k"
  by (cases v) auto

lemma user_list_save [simp]:
  "user_list (save_todos_map fs (m(u \<mapsto> l))) u' = (if u' = u then l else get_list m u')"
  by (simp add: user_list_def get_list_def)



text \<open>
  C7. A read that fails, for whatever reason \<^verbatim>\<open>open\<close> or \<^verbatim>\<open>json.load\<close> raised, returns
  the empty mapping for the sessions and the todos file and the empty sequence for the users
  file; \<open>read_json\<close> is total, so nothing reaches the caller.
\<close>

theorem read_json_fail_open:
  "open_load fs p = None \<Longrightarrow>
     read_json fs p =
       (case p of SESSIONS_FILE \<Rightarrow> Sessions Map.empty
        | TODOS_FILE \<Rightarrow> Todos Map.empty
        | USERS_FILE \<Rightarrow> Users [])"
  by (cases p) (simp_all add: read_json_def empty_mapping_def)

theorem read_json_fail_open_witness:
  "open_load \<lparr>users_json = None, todos_json = None, sessions_json = None\<rparr> TODOS_FILE = None
   \<and> read_json \<lparr>users_json = None, todos_json = None, sessions_json = None\<rparr> TODOS_FILE
       = Todos Map.empty"
  using read_json_fail_open
    [of "\<lparr>users_json = None, todos_json = None, sessions_json = None\<rparr>" TODOS_FILE]
  by simp

lemma ann_sessions [simp]: "load_sessions (ann_files l) ''tok'' = Some ann_session"
  by (simp add: load_sessions_simp ann_files_def)

lemma ann_list [simp]: "user_list (ann_files l) ''ann'' = l"
  by (simp add: user_list_def get_list_def load_todos_map_simp ann_files_def)

lemma ann_username [simp]: "session_username ann_session = ''ann''"
  by (simp add: ann_session_def)

lemma task_a_simps [simp]: "is_obj task_a" "has_id k task_a = (k = ''a'')"
  by (auto simp: task_a_def fields_a_def is_obj_def has_id_def)

lemma task_b_simps [simp]: "is_obj task_b" "has_id k task_b = (k = ''b'')"
  by (auto simp: task_b_def fields_b_def is_obj_def has_id_def)

subsection \<open>Delete\<close>





subsection \<open>Export and import\<close>



subsection \<open>Update\<close>

lemma apply_patch_obj: "apply_patch (JObj b) m = Inr (patched b m)"
  by (auto simp: apply_patch_def set_title_def set_flag_def patched_def Let_def split: option.splits)

lemma set_title_frame: "set_title body m = Inr m' \<Longrightarrow> k \<noteq> ''title'' \<Longrightarrow> m' k = m k"
  by (auto simp: set_title_def split: sum.splits bool.splits)

lemma set_flag_frame: "set_flag f body m = Inr m' \<Longrightarrow> k \<noteq> f \<Longrightarrow> m' k = m k"
  by (auto simp: set_flag_def split: sum.splits bool.splits)

lemma apply_patch_frame:
  assumes "apply_patch body m = Inr m'" "k \<noteq> ''title''" "k \<noteq> ''done''" "k \<noteq> ''important''"
  shows "m' k = m k"
proof -
  from assms(1) obtain m1 m2 where a: "set_title body m = Inr m1" "set_flag ''done'' body m1 = Inr m2"
      "set_flag ''important'' body m2 = Inr m'"
    by (auto simp: apply_patch_def split: sum.splits)
  show ?thesis
    using set_title_frame[OF a(1) assms(2)] set_flag_frame[OF a(2) assms(3)] set_flag_frame[OF a(3) assms(4)]
    by simp
qed

lemma update_loop_found:
  assumes "\<forall>t\<in>set pre. is_obj t \<and> \<not> has_id task_id t" "m ''id'' = Some (JStr task_id)"
  shows "update_loop task_id body (pre @ JObj m # post) =
     (case apply_patch body m of Inl e \<Rightarrow> Inl e
      | Inr m' \<Rightarrow> Inr (Some (JObj m', pre @ JObj m' # post)))"
  using assms
proof (induction pre)
  case Nil
  then show ?case by (simp split: sum.splits)
next
  case (Cons a pre)
  then obtain ma where a: "a = JObj ma" by (cases a) (auto simp: is_obj_def)
  with Cons.prems have n: "\<not> is_str task_id (case ma ''id'' of None \<Rightarrow> JNull | Some v \<Rightarrow> v)"
    by (auto simp: has_id_def is_str_iff split: option.splits)
  from Cons have ih: "update_loop task_id body (pre @ JObj m # post) =
     (case apply_patch body m of Inl e \<Rightarrow> Inl e
      | Inr m' \<Rightarrow> Inr (Some (JObj m', pre @ JObj m' # post)))" by simp
  show ?case using n by (simp add: a ih split: sum.splits)
qed

lemma update_loop_frame:
  assumes "update_loop task_id body lst = Inr (Some (t', lst'))"
    "k \<noteq> ''title''" "k \<noteq> ''done''" "k \<noteq> ''important''"
  shows "map (field k) lst' = map (field k) lst"
  using assms(1)
proof (induction lst arbitrary: lst' t')
  case Nil
  then show ?case by simp
next
  case (Cons a lst)
  show ?case
  proof (cases a)
    case (JObj ma)
    show ?thesis
    proof (cases "is_str task_id (case ma ''id'' of None \<Rightarrow> JNull | Some v \<Rightarrow> v)")
      case True
      with Cons.prems JObj obtain m' where m': "apply_patch body ma = Inr m'" "lst' = JObj m' # lst"
        by (auto split: sum.splits)
      from apply_patch_frame[OF m'(1) assms(2-4)] show ?thesis
        by (simp add: m' JObj field_def)
    next
      case False
      with Cons.prems JObj obtain t2 l2 where r: "update_loop task_id body lst = Inr (Some (t2, l2))" "lst' = a # l2"
        by (auto split: sum.splits option.splits)
      from Cons.IH[OF r(1)] show ?thesis by (simp add: r)
    qed
  qed (use Cons.prems in auto)
qed

lemma token_required_cases:
  "(\<exists>r. token_required fs auth f = (r, fs)) \<or> (\<exists>u. token_required fs auth f = f u)"
  by (auto simp: token_required_def Let_def split: list.splits option.splits)

lemma api_update_found:
  assumes "load_sessions fs token = Some s"
    and "user_list fs (session_username s) = pre @ JObj m # post"
    and "\<forall>t\<in>set pre. is_obj t \<and> \<not> has_id task_id t"
    and "m ''id'' = Some (JStr task_id)"
  shows "api_update_task fs (bearer token) task_id (JObj b) =
     (Response 200 (JObj [''ok'' \<mapsto> JBool True, ''task'' \<mapsto> JObj (patched b m)]),
      save_todos_map fs
        ((load_todos_map fs)(session_username s \<mapsto> pre @ JObj (patched b m) # post)))"
proof -
  have u: "update_loop task_id (JObj b) (get_list (load_todos_map fs) (session_username s))
        = Inr (Some (JObj (patched b m), pre @ JObj (patched b m) # post))"
    using update_loop_found[where pre=pre and task_id=task_id and m=m and body="JObj b" and post=post]
      assms(2,3,4)
    by (simp add: user_list_def apply_patch_obj)
  show ?thesis
    by (simp add: api_update_task_def token_required_ok[OF assms(1)] Let_def raising_def u)
qed

lemma api_update_frame:
  assumes "k \<noteq> ''title''" "k \<noteq> ''done''" "k \<noteq> ''important''"
  shows "map (field k) (user_list (snd (api_update_task fs auth task_id body)) u')
       = map (field k) (user_list fs u')"
proof -
  let ?f = "\<lambda>uname.
       let body = body_or_empty body;
           todos_map = load_todos_map fs;
           lst = get_list todos_map uname
       in raising (update_loop task_id body lst) fs (\<lambda>r.
            case r of
              Some (t, lst') \<Rightarrow>
                (Response 200 (JObj [''ok'' \<mapsto> JBool True, ''task'' \<mapsto> t]),
                 save_todos_map fs (todos_map(uname \<mapsto> lst')))
            | None \<Rightarrow> (Response 404 (error_body ''task not found''), fs))"
  have d: "api_update_task fs auth task_id body = token_required fs auth ?f"
    by (simp add: api_update_task_def)
  have g: "map (field k) (user_list (snd (?f u)) u') = map (field k) (user_list fs u')" for u
  proof (cases "update_loop task_id (body_or_empty body) (get_list (load_todos_map fs) u)")
    case (Inl e)
    then show ?thesis by (simp add: raising_def Let_def)
  next
    case (Inr r)
    show ?thesis
    proof (cases r)
      case None
      with Inr show ?thesis by (simp add: raising_def Let_def)
    next
      case (Some p)
      obtain t' lst' where p: "p = (t', lst')" by (cases p)
      from update_loop_frame[OF Inr[unfolded Some p] assms]
      show ?thesis using Inr Some p
        by (simp add: raising_def Let_def) (simp add: user_list_def)
    qed
  qed
  from token_required_cases[of fs auth ?f] show ?thesis
  proof
    assume "\<exists>r. token_required fs auth ?f = (r, fs)"
    then show ?thesis unfolding d by auto
  next
    assume "\<exists>u. token_required fs auth ?f = ?f u"
    then obtain u where "token_required fs auth ?f = ?f u" by blast
    then show ?thesis unfolding d using g[of u] by simp
  qed
qed

lemma ann_get_list: "get_list (load_todos_map (ann_files l)) ''ann'' = l"
  using ann_list[of l] by (simp add: user_list_def)

lemma api_update_first_of_two:
  "user_list (snd (api_update_task (ann_files [task_a, task_a2]) (bearer ''tok'') ''a'' (JObj b))) ''ann''
     = [JObj (patched b fields_a), task_a2]"
proof -
  have h1: "load_sessions (ann_files [task_a, task_a2]) ''tok'' = Some ann_session" by simp
  have h2: "user_list (ann_files [task_a, task_a2]) (session_username ann_session)
       = [] @ JObj fields_a # [task_a2]" by (simp add: task_a_def)
  have h3: "\<forall>t\<in>set []. is_obj t \<and> \<not> has_id ''a'' t" by simp
  have h4: "fields_a ''id'' = Some (JStr ''a'')" by (simp add: fields_a_def)
  show ?thesis
    by (simp add: api_update_found[where pre="[]" and post="[task_a2]" and m=fields_a and b=b,
          OF h1 h2 h3 h4])
qed

lemma api_update_after_string:
  "api_update_task (ann_files [JStr ''s'', task_a]) (bearer ''tok'') ''a'' (JObj b)
     = (Unhandled AttributeError, ann_files [JStr ''s'', task_a])"
proof -
  have h: "load_sessions (ann_files [JStr ''s'', task_a]) ''tok'' = Some ann_session" by simp
  show ?thesis
    by (simp add: api_update_task_def token_required_ok[OF h] raising_def Let_def ann_get_list)
qed

text \<open>
  C4, as stated, fails. In a list of two tasks that have the same id (Import stores such
  lists, and so do two Creates that draw the same id) the patch \<^verbatim>\<open>{"done": true}\<close> sent for
  that id is applied to the first task: for the second task of the list it is another
  task that changes, and its own \<^verbatim>\<open>done\<close> stays false. And when an element that is not a
  dict stands before the task, \<^verbatim>\<open>t.get("id")\<close> raises AttributeError and nothing is changed.
\<close>

theorem update_done_duplicate_id:
  "has_id ''a'' task_a \<and> has_id ''a'' task_a2 \<and> task_a \<noteq> task_a2
   \<and> field ''done'' task_a = Some (JBool False) \<and> field ''done'' task_a2 = Some (JBool False)
   \<and> user_list
        (snd (api_update_task (ann_files [task_a, task_a2]) (bearer ''tok'') ''a''
               (JObj [''done'' \<mapsto> JBool True])))
        ''ann''
       = [JObj (fields_a(''done'' \<mapsto> JBool True)), task_a2]
   \<and> api_update_task (ann_files [JStr ''s'', task_a]) (bearer ''tok'') ''a''
         (JObj [''done'' \<mapsto> JBool True])
       = (Unhandled AttributeError, ann_files [JStr ''s'', task_a])"
proof -
  have p: "patched [''done'' \<mapsto> JBool True] fields_a = fields_a(''done'' \<mapsto> JBool True)"
    by (simp add: patched_def)
  have a: "has_id ''a'' task_a \<and> has_id ''a'' task_a2 \<and> task_a \<noteq> task_a2
     \<and> field ''done'' task_a = Some (JBool False) \<and> field ''done'' task_a2 = Some (JBool False)"
    by (auto simp: has_id_def field_def task_a_def task_a2_def fields_a_def dest: fun_cong[where x="''title''"])
  from a api_update_first_of_two[of "[''done'' \<mapsto> JBool True]", unfolded p]
    api_update_after_string[of "[''done'' \<mapsto> JBool True]"]
  show ?thesis by blast
qed

text \<open>
  C4, amended. For the first task of the authenticated user's list that has the given id,
  when every element before it is a JSON object, Update with the patch \<^verbatim>\<open>{"done": true}\<close>
  answers 200 and replaces that task by itself with \<^verbatim>\<open>done\<close> set to true: every other key
  of it (title, important, id, createdAt) keeps its value, every other element of the
  list, every other user's list, the users and the sessions document are unchanged.
  Whatever the header, the id and the body of an Update request, the \<^verbatim>\<open>id\<close> and
  \<^verbatim>\<open>createdAt\<close> of every stored task stay as they were.
\<close>

theorem update_done_frame:
  assumes "load_sessions fs token = Some s"
    and "user_list fs (session_username s) = pre @ JObj m # post"
    and "\<forall>t\<in>set pre. is_obj t \<and> \<not> has_id task_id t"
    and "m ''id'' = Some (JStr task_id)"
  shows "fst (api_update_task fs (bearer token) task_id (JObj [''done'' \<mapsto> JBool True]))
           = Response 200 (JObj [''ok'' \<mapsto> JBool True, ''task'' \<mapsto> JObj (m(''done'' \<mapsto> JBool True))])
    \<and> user_list (snd (api_update_task fs (bearer token) task_id (JObj [''done'' \<mapsto> JBool True])))
         (session_username s)
        = pre @ JObj (m(''done'' \<mapsto> JBool True)) # post
    \<and> (\<forall>k. k \<noteq> ''done'' \<longrightarrow> (m(''done'' \<mapsto> JBool True)) k = m k)
    \<and> (\<forall>u'. u' \<noteq> session_username s \<longrightarrow>
          user_list (snd (api_update_task fs (bearer token) task_id (JObj [''done'' \<mapsto> JBool True]))) u'
            = user_list fs u')
    \<and> users_json (snd (api_update_task fs (bearer token) task_id (JObj [''done'' \<mapsto> JBool True])))
        = users_json fs
    \<and> sessions_json (snd (api_update_task fs (bearer token) task_id (JObj [''done'' \<mapsto> JBool True])))
        = sessions_json fs
    \<and> (\<forall>u'. map (field ''id'') (user_list (snd (api_update_task fs auth task_id' body)) u')
              = map (field ''id'') (user_list fs u')
           \<and> map (field ''createdAt'') (user_list (snd (api_update_task fs auth task_id' body)) u')
              = map (field ''createdAt'') (user_list fs u'))"
proof -
  have p: "patched [''done'' \<mapsto> JBool True] m = m(''done'' \<mapsto> JBool True)"
    by (simp add: patched_def)
  note e = api_update_found[OF assms, of "[''done'' \<mapsto> JBool True]", unfolded p]
  have g: "\<forall>u'. map (field ''id'') (user_list (snd (api_update_task fs auth task_id' body)) u')
              = map (field ''id'') (user_list fs u')
           \<and> map (field ''createdAt'') (user_list (snd (api_update_task fs auth task_id' body)) u')
              = map (field ''createdAt'') (user_list fs u')"
    by (simp add: api_update_frame)
  show ?thesis using g by (simp add: e) (simp add: user_list_def)
qed

theorem update_done_frame_witness:
  "load_sessions (ann_files [task_b, task_a]) ''tok'' = Some ann_session
   \<and> user_list (ann_files [task_b, task_a]) (session_username ann_session)
       = [task_b] @ JObj fields_a # []
   \<and> is_obj task_b \<and> \<not> has_id ''a'' task_b
   \<and> fields_a ''id'' = Some (JStr ''a'')
   \<and> user_list
        (snd (api_update_task (ann_files [task_b, task_a]) (bearer ''tok'') ''a''
               (JObj [''done'' \<mapsto> JBool True])))
        (session_username ann_session)
       = [task_b] @ JObj (fields_a(''done'' \<mapsto> JBool True)) # []"
proof -
  have h1: "load_sessions (ann_files [task_b, task_a]) ''tok'' = Some ann_session" by simp
  have h2: "user_list (ann_files [task_b, task_a]) (session_username ann_session)
       = [task_b] @ JObj fields_a # []" by (simp add: task_a_def)
  have h3: "\<forall>t\<in>set [task_b]. is_obj t \<and> \<not> has_id ''a'' t" by simp
  have h4: "fields_a ''id'' = Some (JStr ''a'')" by (simp add: fields_a_def)
  have h3': "is_obj task_b \<and> \<not> has_id ''a'' task_b" by simp
  show ?thesis
    using h1 h2 h3' h4
      update_done_frame[OF h1 h2 h3 h4, where auth=None and task_id'="''a''" and body=JNull]
    by blast
qed




subsection \<open>Create\<close>

lemma api_create_str:
  assumes "load_sessions fs token = Some s" and "b ''title'' = Some (JStr t)"
  shows "api_create_task fs (bearer token) (JObj b) millis hex now =
    (if strip t = [] then (Response 400 (error_body ''title required''), fs)
     else (Response 201 (JObj [''ok'' \<mapsto> JBool True,
                               ''task'' \<mapsto> new_task b (make_task_id millis hex) (strip t) now]),
           save_todos_map fs ((load_todos_map fs)(session_username s \<mapsto>
              new_task b (make_task_id millis hex) (strip t) now
                # get_list (load_todos_map fs) (session_username s)))))"
proof (cases "t = []")
  case True
  then show ?thesis using assms
    by (simp add: api_create_task_def token_required_ok[OF assms(1)] raising_def py_or_def strip_def)
next
  case False
  then show ?thesis using assms
    by (simp add: api_create_task_def token_required_ok[OF assms(1)] raising_def py_or_def Let_def
        new_task_def)
qed





subsection \<open>Boolean flags\<close>







lemma get_list_upd [simp]: "get_list (m(u \<mapsto> l)) u' = (if u' = u then l else get_list m u')"
  by (simp add: get_list_def)








subsection \<open>Task ids\<close>

lemma digit_char_val: "d < 10 \<Longrightarrow> of_char (digit_char d) = 48 + d"
  by (simp add: digit_char_def)

lemma digits_val_digits: "digits_val (digits n) = n"
proof (induction n rule: digits.induct)
  case (1 n)
  show ?case
  proof (cases "n < 10")
    case True
    then show ?thesis by (subst digits.simps) (simp add: digits_val_def digit_char_val)
  next
    case False
    with 1 have ih: "digits_val (digits (n div 10)) = n div 10" by simp
    have "digits_val (digits n) = 10 * digits_val (digits (n div 10)) + n mod 10"
      using False by (subst digits.simps) (simp add: digits_val_def digit_char_val)
    then show ?thesis by (simp add: ih)
  qed
qed

lemma digits_inj: "digits a = digits b \<Longrightarrow> a = b"
  by (metis digits_val_digits)

lemma digit_char_neq:
  assumes "d < 10"
  shows "digit_char d \<noteq> CHR ''_''" and "digit_char d \<noteq> CHR ''-''"
proof -
  have v: "(of_char (digit_char d) :: nat) = 48 + d" using assms by (rule digit_char_val)
  show "digit_char d \<noteq> CHR ''_''"
  proof
    assume "digit_char d = CHR ''_''"
    then have "(of_char (digit_char d) :: nat) = 95" by simp
    with v assms show False by simp
  qed
  show "digit_char d \<noteq> CHR ''-''"
  proof
    assume "digit_char d = CHR ''-''"
    then have "(of_char (digit_char d) :: nat) = 45" by simp
    with v assms show False by simp
  qed
qed


lemma digits_chars: "c \<in> set (digits n) \<Longrightarrow> \<exists>d<10. c = digit_char d"
proof (induction n rule: digits.induct)
  case (1 n)
  show ?case
  proof (cases "n < 10")
    case True
    with 1(2) show ?thesis by (subst (asm) digits.simps) auto
  next
    case False
    with 1(2) have "c \<in> set (digits (n div 10)) \<or> c = digit_char (n mod 10)"
      by (subst (asm) digits.simps) auto
    then show ?thesis
    proof
      assume "c \<in> set (digits (n div 10))"
      with 1(1)[OF False] show ?thesis by simp
    next
      assume "c = digit_char (n mod 10)"
      then show ?thesis by (intro exI[of _ "n mod 10"]) simp
    qed
  qed
qed

lemma digits_nonempty: "digits n \<noteq> []"
  by (subst digits.simps) simp

lemma digits_no_underscore: "CHR ''_'' \<notin> set (digits n)"
proof
  assume "CHR ''_'' \<in> set (digits n)"
  from digits_chars[OF this] obtain d where d: "d < 10" "CHR ''_'' = digit_char d" by blast
  from digit_char_neq(1)[OF d(1)] d(2) show False by simp
qed

lemma digits_no_minus: "CHR ''-'' \<notin> set (digits n)"
proof
  assume "CHR ''-'' \<in> set (digits n)"
  from digits_chars[OF this] obtain d where d: "d < 10" "CHR ''-'' = digit_char d" by blast
  from digit_char_neq(2)[OF d(1)] d(2) show False by simp
qed

lemma str_int_no_underscore: "CHR ''_'' \<notin> set (str_int i)"
  by (simp add: str_int_def digits_no_underscore)

lemma str_int_inj: "str_int i = str_int j \<Longrightarrow> i = j"
proof -
  assume e: "str_int i = str_int j"
  have m: "CHR ''-'' # digits a \<noteq> digits b" for a b
  proof
    assume "CHR ''-'' # digits a = digits b"
    then have "CHR ''-'' \<in> set (digits b)" by (metis list.set_intros(1))
    with digits_no_minus show False by blast
  qed
  show ?thesis
  proof (cases "i < 0")
    case True
    show ?thesis
    proof (cases "j < 0")
      case j: True
      with True e have "digits (nat (- i)) = digits (nat (- j))" by (simp add: str_int_def)
      then have "nat (- i) = nat (- j)" by (rule digits_inj)
      with True j show ?thesis by simp
    next
      case False
      with True e m show ?thesis by (simp add: str_int_def)
    qed
  next
    case False
    show ?thesis
    proof (cases "j < 0")
      case True
      with False e m[of "nat (- j)" "nat i"] show ?thesis by (simp add: str_int_def)
    next
      case j: False
      with False e have "digits (nat i) = digits (nat j)" by (simp add: str_int_def)
      then have "nat i = nat j" by (rule digits_inj)
      with False j show ?thesis by simp
    qed
  qed
qed

lemma split_at_sep:
  "x \<notin> set s1 \<Longrightarrow> x \<notin> set s2 \<Longrightarrow> s1 @ x # h1 = s2 @ x # h2 \<Longrightarrow> s1 = s2 \<and> h1 = h2"
proof (induction s1 arbitrary: s2)
  case Nil
  then show ?case by (cases s2) auto
next
  case (Cons a s1)
  then show ?case by (cases s2) auto
qed

lemma create_twice_same_draw:
  "fst (api_create_task (ann_files []) (bearer ''tok'') (JObj [''title'' \<mapsto> JStr ''x''])
         1700000000000 ''0a1b2c3d'' ''now'')
     = Response 201 (JObj [''ok'' \<mapsto> JBool True,
          ''task'' \<mapsto> new_task [''title'' \<mapsto> JStr ''x''] (make_task_id 1700000000000 ''0a1b2c3d'') ''x'' ''now''])
   \<and> fst (api_create_task
          (snd (api_create_task (ann_files []) (bearer ''tok'') (JObj [''title'' \<mapsto> JStr ''x''])
                 1700000000000 ''0a1b2c3d'' ''now''))
          (bearer ''tok'') (JObj [''title'' \<mapsto> JStr ''y'']) 1700000000000 ''0a1b2c3d'' ''now'')
     = Response 201 (JObj [''ok'' \<mapsto> JBool True,
          ''task'' \<mapsto> new_task [''title'' \<mapsto> JStr ''y''] (make_task_id 1700000000000 ''0a1b2c3d'') ''y'' ''now''])
   \<and> map (field ''id'')
        (user_list
          (snd (api_create_task
            (snd (api_create_task (ann_files []) (bearer ''tok'') (JObj [''title'' \<mapsto> JStr ''x''])
                   1700000000000 ''0a1b2c3d'' ''now''))
            (bearer ''tok'') (JObj [''title'' \<mapsto> JStr ''y'']) 1700000000000 ''0a1b2c3d'' ''now''))
          ''ann'')
     = [Some (JStr (make_task_id 1700000000000 ''0a1b2c3d'')),
        Some (JStr (make_task_id 1700000000000 ''0a1b2c3d''))]"
proof -
  have h1: "load_sessions (ann_files []) ''tok'' = Some ann_session" by simp
  have sx: "strip ''x'' = ''x''" "strip ''y'' = ''y''" by (simp_all add: strip_def isspace_def)
  note c1 = api_create_str[where b="[''title'' \<mapsto> JStr ''x'']" and t="''x''"
      and millis=1700000000000 and hex="''0a1b2c3d''" and now="''now''", OF h1, simplified sx]
  let ?fs1 = "snd (api_create_task (ann_files []) (bearer ''tok'') (JObj [''title'' \<mapsto> JStr ''x''])
                 1700000000000 ''0a1b2c3d'' ''now'')"
  have h2: "load_sessions ?fs1 ''tok'' = Some ann_session" by (simp add: c1)
  note c2 = api_create_str[where b="[''title'' \<mapsto> JStr ''y'']" and t="''y''"
      and millis=1700000000000 and hex="''0a1b2c3d''" and now="''now''", OF h2, simplified sx]
  have l1: "user_list ?fs1 ''ann'' = [new_task [''title'' \<mapsto> JStr ''x''] (make_task_id 1700000000000 ''0a1b2c3d'') ''x'' ''now'']"
    by (simp add: c1) (simp add: user_list_def[symmetric])
  show ?thesis
    apply (intro conjI)
      apply (simp add: c1)
     apply (simp add: c2)
    apply (simp add: c2)
    apply (simp add: user_list_def[symmetric] l1)
    apply (simp add: new_task_def field_def)
    done
qed

text \<open>
  C8, as stated, fails: two Create requests that read the same clock value and draw the
  same hex string both answer 201 and leave two tasks with the same id in the list.
\<close>

theorem create_ids_collide:
  "\<not> distinct (map (field ''id'')
        (user_list
          (snd (api_create_task
            (snd (api_create_task (ann_files []) (bearer ''tok'') (JObj [''title'' \<mapsto> JStr ''x''])
                   1700000000000 ''0a1b2c3d'' ''now''))
            (bearer ''tok'') (JObj [''title'' \<mapsto> JStr ''y'']) 1700000000000 ''0a1b2c3d'' ''now''))
          ''ann''))"
  using create_twice_same_draw by simp

text \<open>
  C8, amended. The id is a function of the clock value and the hex draw alone, and an
  injective one: two Creates are given the same id exactly when they read the same
  millisecond and draw the same hex string. Nothing in the route compares the id with the
  stored ones.
\<close>

theorem task_id_collision_iff:
  "make_task_id millis1 hex1 = make_task_id millis2 hex2 \<longleftrightarrow> millis1 = millis2 \<and> hex1 = hex2"
proof
  assume "make_task_id millis1 hex1 = make_task_id millis2 hex2"
  then have "str_int millis1 @ CHR ''_'' # hex1 = str_int millis2 @ CHR ''_'' # hex2"
    by (simp add: make_task_id_def)
  from split_at_sep[OF str_int_no_underscore str_int_no_underscore this]
  show "millis1 = millis2 \<and> hex1 = hex2" using str_int_inj by blast
next
  assume "millis1 = millis2 \<and> hex1 = hex2"
  then show "make_task_id millis1 hex1 = make_task_id millis2 hex2" by simp
qed

subsection \<open>Reorder\<close>

lemma find_snoc:
  "find P (xs @ [x]) = (case find P xs of Some y \<Rightarrow> Some y | None \<Rightarrow> if P x then Some x else None)"
  by (induction xs) auto

lemma id_to_task_keys:
  "list_all (\<lambda>t. key_of t \<noteq> None) lst \<Longrightarrow>
   id_to_task lst d =
     Inr (\<lambda>k. case find (\<lambda>t. key_of t = Some k) (rev lst) of Some t \<Rightarrow> Some t | None \<Rightarrow> d k)"
proof (induction lst arbitrary: d)
  case Nil
  then show ?case by simp
next
  case (Cons t ts)
  then obtain k0 where k0: "key_of t = Some k0" by auto
  then obtain v where v: "subscript t ''id'' = Inr v" "hash_key v = Inr k0"
    by (auto simp: key_of_def split: sum.splits)
  from Cons have ih: "id_to_task ts (d(k0 \<mapsto> t)) =
     Inr (\<lambda>k. case find (\<lambda>t. key_of t = Some k) (rev ts) of Some t \<Rightarrow> Some t | None \<Rightarrow> (d(k0 \<mapsto> t)) k)"
    by simp
  have "(\<lambda>k. case find (\<lambda>t. key_of t = Some k) (rev ts) of Some t \<Rightarrow> Some t | None \<Rightarrow> (d(k0 \<mapsto> t)) k)
      = (\<lambda>k. case find (\<lambda>t. key_of t = Some k) (rev (t # ts)) of Some t \<Rightarrow> Some t | None \<Rightarrow> d k)"
    by (rule ext) (auto simp: find_snoc k0 split: option.splits)
  then show ?case by (simp add: v ih del: rev.simps)
qed

lemma pick_order_keys:
  "list_all (\<lambda>i. id_key i \<noteq> None) order \<Longrightarrow>
   pick_order d order =
     Inr (List.map_filter (\<lambda>i. case id_key i of None \<Rightarrow> None | Some k \<Rightarrow> d k) order)"
proof (induction order)
  case Nil
  then show ?case by (simp add: List.map_filter_simps)
next
  case (Cons i order)
  then obtain k where k: "hash_key i = Inr k" by (auto simp: id_key_def split: sum.splits)
  with Cons show ?case by (simp add: List.map_filter_simps id_key_def split: option.splits)
qed

lemma filter_find_distinct:
  "distinct (map f xs) \<Longrightarrow>
   filter (\<lambda>t. f t = a) xs = (case find (\<lambda>t. f t = a) xs of None \<Rightarrow> [] | Some x \<Rightarrow> [x])"
proof (induction xs)
  case Nil
  then show ?case by simp
next
  case (Cons x xs)
  show ?case
  proof (cases "f x = a")
    case True
    have "filter (\<lambda>t. f t = a) xs = []"
    proof (rule ccontr)
      assume "filter (\<lambda>t. f t = a) xs \<noteq> []"
      then obtain y where y: "y \<in> set xs" "f y = a"
        by (auto simp: filter_empty_conv)
      then have "f x \<in> f ` set xs" using True by (metis imageI)
      with Cons.prems show False by simp
    qed
    with True show ?thesis by simp
  next
    case False
    with Cons show ?thesis by simp
  qed
qed

lemma filter_last_distinct:
  assumes "distinct (map f xs)"
  shows "filter (\<lambda>t. f t = a) xs = (case find (\<lambda>t. f t = a) (rev xs) of None \<Rightarrow> [] | Some x \<Rightarrow> [x])"
proof -
  from assms have "distinct (map f (rev xs))" by (simp add: rev_map[symmetric])
  from filter_find_distinct[OF this, of a]
  have "rev (filter (\<lambda>t. f t = a) xs) = (case find (\<lambda>t. f t = a) (rev xs) of None \<Rightarrow> [] | Some x \<Rightarrow> [x])"
    by (simp add: rev_filter)
  then have "filter (\<lambda>t. f t = a) xs = rev (case find (\<lambda>t. f t = a) (rev xs) of None \<Rightarrow> [] | Some x \<Rightarrow> [x])"
    by (metis rev_rev_ident)
  then show ?thesis by (simp split: option.splits)
qed

lemma reorder_as_stated_distinct:
  assumes "distinct (map key_of lst)" "list_all (\<lambda>i. id_key i \<noteq> None) order"
  shows "List.map_filter (last_match lst) order = reorder_as_stated lst order"
  using assms(2)
proof (induction order)
  case Nil
  then show ?case by (simp add: reorder_as_stated_def List.map_filter_simps)
next
  case (Cons i order)
  then obtain k where k: "id_key i = Some k" by auto
  from Cons have ih: "List.map_filter (last_match lst) order = reorder_as_stated lst order" by simp
  have F: "filter (\<lambda>t. key_of t = Some k) lst
      = (case find (\<lambda>t. key_of t = Some k) (rev lst) of None \<Rightarrow> [] | Some x \<Rightarrow> [x])"
    using filter_last_distinct[OF assms(1)] .
  have hd: "List.map_filter (last_match lst) (i # order)
      = (case last_match lst i of None \<Rightarrow> [] | Some x \<Rightarrow> [x]) @ List.map_filter (last_match lst) order"
    by (simp add: List.map_filter_simps split: option.splits)
  have st: "reorder_as_stated lst (i # order)
      = filter (\<lambda>t. key_of t = Some k) lst @ reorder_as_stated lst order"
    by (simp add: reorder_as_stated_def k)
  have lm: "last_match lst i = find (\<lambda>t. key_of t = Some k) (rev lst)"
    by (simp add: last_match_def k)
  show ?case by (simp only: hd st lm ih F)
qed

lemma key_of_examples [simp]:
  "key_of task_a = Some (KStr ''a'')" "key_of task_a2 = Some (KStr ''a'')"
  "key_of task_b = Some (KStr ''b'')"
  by (simp_all add: key_of_def task_a_def task_a2_def task_b_def fields_a_def fields_b_def)

lemma id_key_str [simp]: "id_key (JStr x) = Some (KStr x)"
  by (simp add: id_key_def)

lemma api_reorder_keys:
  assumes "load_sessions fs token = Some s"
    and "b ''order'' = Some (JList order)"
    and "list_all (\<lambda>t. key_of t \<noteq> None) (user_list fs (session_username s))"
    and "list_all (\<lambda>i. id_key i \<noteq> None) order"
  shows "api_reorder fs (bearer token) (JObj b) =
     (Response 200 ok_body,
      save_todos_map fs ((load_todos_map fs)(session_username s \<mapsto>
         List.map_filter (last_match (user_list fs (session_username s))) order)))"
proof -
  let ?lst = "user_list fs (session_username s)"
  let ?d = "\<lambda>k. case find (\<lambda>t. key_of t = Some k) (rev ?lst) of Some t \<Rightarrow> Some t | None \<Rightarrow> None"
  have d: "id_to_task (get_list (load_todos_map fs) (session_username s)) Map.empty = Inr ?d"
    using id_to_task_keys[OF assms(3), of Map.empty] by (simp add: user_list_def)
  have f: "(\<lambda>i. case id_key i of None \<Rightarrow> None | Some k \<Rightarrow> ?d k) = last_match ?lst"
    by (rule ext) (simp add: last_match_def split: option.splits)
  have p: "pick_order ?d order = Inr (List.map_filter (last_match ?lst) order)"
    using pick_order_keys[OF assms(4), of ?d] by (simp only: f)
  show ?thesis
    by (simp add: api_reorder_def token_required_ok[OF assms(1)] raising_def assms(2) d p Let_def)
qed

text \<open>
  C3, as stated, fails. On a list of two tasks that share the id \<open>a\<close> (Import stores such
  lists) the order \<open>[a]\<close> leaves only the second task, while the tasks whose id appears in
  the order are both. And an order with an unhashable element, here an empty list, is
  answered by an unhandled TypeError and the list is not replaced.
\<close>

theorem reorder_as_stated_fails:
  "user_list (snd (api_reorder (ann_files [task_a, task_a2]) (bearer ''tok'')
                    (JObj [''order'' \<mapsto> JList [JStr ''a'']]))) ''ann''
     = [task_a2]
   \<and> reorder_as_stated (user_list (ann_files [task_a, task_a2]) ''ann'') [JStr ''a'']
     = [task_a, task_a2]
   \<and> user_list (snd (api_reorder (ann_files [task_a, task_a2]) (bearer ''tok'')
                    (JObj [''order'' \<mapsto> JList [JStr ''a'']]))) ''ann''
     \<noteq> reorder_as_stated (user_list (ann_files [task_a, task_a2]) ''ann'') [JStr ''a'']
   \<and> api_reorder (ann_files [task_a]) (bearer ''tok'') (JObj [''order'' \<mapsto> JList [JList []]])
     = (Unhandled TypeError, ann_files [task_a])"
proof -
  have h1: "load_sessions (ann_files l) ''tok'' = Some ann_session" for l by simp
  have h2: "[''order'' \<mapsto> JList [JStr ''a'']] ''order'' = Some (JList [JStr ''a''])" by simp
  have h3: "list_all (\<lambda>t. key_of t \<noteq> None) (user_list (ann_files [task_a, task_a2]) (session_username ann_session))"
    by simp
  have h4: "list_all (\<lambda>i. id_key i \<noteq> None) [JStr ''a'']" by simp
  note e = api_reorder_keys[where b="[''order'' \<mapsto> JList [JStr ''a'']]" and order="[JStr ''a'']",
      OF h1 h2 h3 h4]
  have A: "user_list (snd (api_reorder (ann_files [task_a, task_a2]) (bearer ''tok'')
                    (JObj [''order'' \<mapsto> JList [JStr ''a'']]))) ''ann'' = [task_a2]"
    by (simp add: e List.map_filter_simps last_match_def)
  have B: "reorder_as_stated [task_a, task_a2] [JStr ''a''] = [task_a, task_a2]"
    by (simp add: reorder_as_stated_def)
  have d: "id_to_task [task_a] Map.empty = Inr [KStr ''a'' \<mapsto> task_a]"
    by (simp add: task_a_def fields_a_def)
  have C: "api_reorder (ann_files [task_a]) (bearer ''tok'') (JObj [''order'' \<mapsto> JList [JList []]])
     = (Unhandled TypeError, ann_files [task_a])"
    using d by (simp add: api_reorder_def token_required_ok[OF h1] raising_def Let_def user_list_def[symmetric])
  show ?thesis by (simp add: A B C)
qed

text \<open>
  C3, amended. For an authenticated user whose tasks are dicts with a hashable id, and an
  order of hashable elements, Reorder answers 200 and replaces the user's list by, for
  each element of the order in turn that is the id of a current task, the last current
  task with that id: elements that match no task are dropped, tasks whose id is not in the
  order are dropped, an id repeated in the order gives the task again. When the ids of the
  current tasks are distinct this is exactly the tasks whose ids appear in the order, in
  that order. No other user's list changes.
\<close>

theorem reorder_semantics:
  assumes "load_sessions fs token = Some s"
    and "b ''order'' = Some (JList order)"
    and "list_all (\<lambda>t. key_of t \<noteq> None) (user_list fs (session_username s))"
    and "list_all (\<lambda>i. id_key i \<noteq> None) order"
  shows "fst (api_reorder fs (bearer token) (JObj b)) = Response 200 ok_body
    \<and> user_list (snd (api_reorder fs (bearer token) (JObj b))) (session_username s)
        = List.map_filter (last_match (user_list fs (session_username s))) order
    \<and> (distinct (map key_of (user_list fs (session_username s))) \<longrightarrow>
          user_list (snd (api_reorder fs (bearer token) (JObj b))) (session_username s)
            = reorder_as_stated (user_list fs (session_username s)) order)
    \<and> (\<forall>u'. u' \<noteq> session_username s \<longrightarrow>
          user_list (snd (api_reorder fs (bearer token) (JObj b))) u' = user_list fs u')"
proof -
  note e = api_reorder_keys[where b=b and order=order, OF assms]
  have r: "distinct (map key_of (user_list fs (session_username s))) \<Longrightarrow>
      List.map_filter (last_match (user_list fs (session_username s))) order
        = reorder_as_stated (user_list fs (session_username s)) order"
    using reorder_as_stated_distinct[OF _ assms(4)] .
  show ?thesis using r by (simp add: e) (simp add: user_list_def)
qed

theorem reorder_semantics_witness:
  "load_sessions (ann_files [task_a, task_b]) ''tok'' = Some ann_session
   \<and> [''order'' \<mapsto> JList [JStr ''b'', JStr ''a'', JStr ''a'', JStr ''zzz'']] ''order'' = Some (JList [JStr ''b'', JStr ''a'', JStr ''a'', JStr ''zzz''])
   \<and> list_all (\<lambda>t. key_of t \<noteq> None)
        (user_list (ann_files [task_a, task_b]) (session_username ann_session))
   \<and> list_all (\<lambda>i. id_key i \<noteq> None) [JStr ''b'', JStr ''a'', JStr ''a'', JStr ''zzz'']
   \<and> fst (api_reorder (ann_files [task_a, task_b]) (bearer ''tok'')
            (JObj [''order'' \<mapsto> JList [JStr ''b'', JStr ''a'', JStr ''a'', JStr ''zzz'']]))
       = Response 200 ok_body
   \<and> user_list
        (snd (api_reorder (ann_files [task_a, task_b]) (bearer ''tok'')
               (JObj [''order'' \<mapsto> JList [JStr ''b'', JStr ''a'', JStr ''a'', JStr ''zzz'']])))
        (session_username ann_session)
       = [task_b, task_a, task_a]"
proof -
  have h1: "load_sessions (ann_files [task_a, task_b]) ''tok'' = Some ann_session" by simp
  have h2: "[''order'' \<mapsto> JList [JStr ''b'', JStr ''a'', JStr ''a'', JStr ''zzz'']] ''order'' = Some (JList [JStr ''b'', JStr ''a'', JStr ''a'', JStr ''zzz''])" by simp
  have h3: "list_all (\<lambda>t. key_of t \<noteq> None)
        (user_list (ann_files [task_a, task_b]) (session_username ann_session))" by simp
  have h4: "list_all (\<lambda>i. id_key i \<noteq> None) [JStr ''b'', JStr ''a'', JStr ''a'', JStr ''zzz'']"
    by simp
  have v: "List.map_filter
             (last_match (user_list (ann_files [task_a, task_b]) (session_username ann_session)))
             [JStr ''b'', JStr ''a'', JStr ''a'', JStr ''zzz'']
           = [task_b, task_a, task_a]"
    by (simp add: List.map_filter_simps last_match_def)
  show ?thesis
    using h1 h2 h3 h4
      reorder_semantics[where b="[''order'' \<mapsto> JList [JStr ''b'', JStr ''a'', JStr ''a'', JStr ''zzz'']]"
        and order="[JStr ''b'', JStr ''a'', JStr ''a'', JStr ''zzz'']", OF h1 h2 h3 h4, unfolded v]
    by blast
qed

subsection \<open>Token lifecycle\<close>

lemma load_sessions_save_users [simp]: "load_sessions (save_users fs us) = load_sessions fs"
  by (simp add: load_sessions_simp save_users_def)

lemma token_required_sessions:
  assumes "\<And>u. load_sessions (snd (f u)) = load_sessions fs"
  shows "load_sessions (snd (token_required fs auth f)) = load_sessions fs"
proof -
  from token_required_cases[of fs auth f] show ?thesis
  proof
    assume "\<exists>r. token_required fs auth f = (r, fs)"
    then show ?thesis by auto
  next
    assume "\<exists>u. token_required fs auth f = f u"
    then obtain u where "token_required fs auth f = f u" by blast
    then show ?thesis using assms[of u] by simp
  qed
qed

lemma raising_sessions:
  assumes "\<And>v. load_sessions (snd (f v)) = load_sessions fs"
  shows "load_sessions (snd (raising x fs f)) = load_sessions fs"
  using assms by (cases x) (simp_all add: raising_def)

lemma raising_sessions_at:
  assumes "\<And>v. load_sessions (snd (f v)) t = load_sessions fs t"
  shows "load_sessions (snd (raising x fs f)) t = load_sessions fs t"
  using assms by (cases x) (simp_all add: raising_def)

lemma sessions_get_tasks: "load_sessions (snd (api_get_tasks fs auth)) = load_sessions fs"
  unfolding api_get_tasks_def by (rule token_required_sessions) (simp add: Let_def)

lemma sessions_create:
  "load_sessions (snd (api_create_task fs auth body millis hex now)) = load_sessions fs"
  unfolding api_create_task_def Let_def
  apply (rule token_required_sessions)
  apply (rule raising_sessions)
  apply (rule raising_sessions)
  subgoal for u v title
    apply (cases "title = []")
     apply simp
    apply (simp only: if_not_P if_False)
    apply (rule raising_sessions)
    apply (rule raising_sessions)
    apply simp
    done
  done

lemma sessions_update:
  "load_sessions (snd (api_update_task fs auth task_id body)) = load_sessions fs"
  unfolding api_update_task_def Let_def
  apply (rule token_required_sessions)
  apply (rule raising_sessions)
  apply (simp split: option.splits prod.splits)
  done

lemma sessions_delete:
  "load_sessions (snd (api_delete_task fs auth task_id)) = load_sessions fs"
  unfolding api_delete_task_def Let_def
  apply (rule token_required_sessions)
  apply (rule raising_sessions)
  apply simp
  done

lemma sessions_reorder:
  "load_sessions (snd (api_reorder fs auth body)) = load_sessions fs"
  unfolding api_reorder_def Let_def
  apply (rule token_required_sessions)
  apply (rule raising_sessions)
  subgoal for u ord
    apply (cases ord)
          apply simp_all
    apply (rule raising_sessions)
    apply (rule raising_sessions)
    apply simp
    done
  done

lemma sessions_export: "load_sessions (snd (api_export fs auth now)) = load_sessions fs"
  unfolding api_export_def by (rule token_required_sessions) (simp add: Let_def)

lemma sessions_import:
  "load_sessions (snd (api_import fs auth body)) = load_sessions fs"
  unfolding api_import_def Let_def
  apply (rule token_required_sessions)
  apply (rule raising_sessions)
  apply (simp split: json.splits)
  done

lemma sessions_signup:
  "load_sessions (snd (api_signup fs body gen salt now)) = load_sessions fs"
  unfolding api_signup_def Let_def
  apply (rule raising_sessions)
  apply (rule raising_sessions)
  apply (rule raising_sessions)
  subgoal for v uname pv
    apply (cases "uname = [] \<or> \<not> truthy (py_or pv (JStr []))")
     apply simp
    apply (simp only: if_not_P if_False)
    apply (cases "list_ex (\<lambda>u. username u = uname) (load_users fs)")
     apply simp
    apply (simp only: if_not_P if_False)
    apply (rule raising_sessions)
    apply simp
    done
  done

lemma sessions_login:
  assumes "token \<noteq> t"
  shows "load_sessions (snd (api_login fs body chk token now)) t = load_sessions fs t"
  unfolding api_login_def Let_def
  apply (rule raising_sessions_at)
  apply (rule raising_sessions_at)
  apply (rule raising_sessions_at)
  subgoal for v uname pv
    apply (cases "uname = [] \<or> \<not> truthy (py_or pv (JStr []))")
     apply simp
    apply (cases "find (\<lambda>u. username u = uname) (load_users fs)")
     apply simp
    apply (simp only: if_not_P if_False option.case)
    apply (rule raising_sessions_at)
    using assms
    apply (simp add: create_token_def Let_def)
    done
  done

lemma split1_bearer: "split1 (''Bearer '' @ t) = [''Bearer'', t]"
  by (simp add: split1_def)

lemma api_logout_valid:
  assumes "load_sessions fs t = Some s"
  shows "api_logout fs (bearer t) =
           (Response 200 ok_body, save_sessions fs ((load_sessions fs)(t := None)))"
  using assms unfolding api_logout_def
  by (simp add: token_required_ok) (simp add: bearer_def split1_def)

lemma sessions_logout:
  "load_sessions (snd (api_logout fs auth)) t =
     (if auth = bearer t then None else load_sessions fs t)"
proof (cases "auth = bearer t")
  case True
  show ?thesis
  proof (cases "load_sessions fs t")
    case None
    then show ?thesis using True by (simp add: api_logout_def token_required_invalid)
  next
    case (Some s)
    then show ?thesis using True by (simp add: api_logout_valid)
  qed
next
  case False
  show ?thesis
  proof (cases auth)
    case None
    then show ?thesis using False by (simp add: api_logout_def token_required_def)
  next
    case (Some h)
    show ?thesis
    proof (cases "prefix ''Bearer '' h")
      case nopre: False
      then show ?thesis using False Some by (simp add: api_logout_def token_required_def)
    next
      case True
      then obtain rest where h: "h = ''Bearer '' @ rest" by (auto simp: prefix_def)
      with False Some have ne: "rest \<noteq> t" by (auto simp: bearer_def)
      have sp: "split1 h = [''Bearer'', rest]" unfolding h by (rule split1_bearer)
      have pre: "prefix ''Bearer '' h" by (rule True)
      show ?thesis using False ne
        by (simp add: api_logout_def token_required_def Some sp pre Let_def split: option.splits)
    qed
  qed
qed

lemma handle_keeps:
  assumes "\<not> issues t r" and "\<not> revokes t r"
  shows "load_sessions (snd (handle gen chk fs r)) t = load_sessions fs t"
proof (cases r)
  case (Login body token now)
  with assms have "token \<noteq> t" by simp
  then show ?thesis using sessions_login[of token t fs body chk now] Login by simp
next
  case (Logout auth)
  with assms have "auth \<noteq> bearer t" by simp
  then show ?thesis using Logout by (simp add: sessions_logout)
qed (simp_all add: sessions_signup sessions_get_tasks sessions_create sessions_update
       sessions_delete sessions_reorder sessions_export sessions_import)

lemma handle_stays_out:
  assumes "\<not> issues t r" and "load_sessions fs t = None"
  shows "load_sessions (snd (handle gen chk fs r)) t = None"
proof (cases "revokes t r")
  case False
  then show ?thesis using assms handle_keeps by simp
next
  case True
  then obtain auth where "r = Logout auth" and "auth = bearer t" by (cases r) auto
  then show ?thesis by (simp add: sessions_logout)
qed

lemma run_keeps:
  "list_all (\<lambda>r. \<not> issues t r \<and> \<not> revokes t r) rs \<Longrightarrow>
   load_sessions (run gen chk fs rs) t = load_sessions fs t"
  by (induction rs arbitrary: fs) (simp_all add: handle_keeps)

lemma run_stays_out:
  "list_all (\<lambda>r. \<not> issues t r) rs \<Longrightarrow> load_sessions fs t = None \<Longrightarrow>
   load_sessions (run gen chk fs rs) t = None"
  by (induction rs arbitrary: fs) (simp_all add: handle_stays_out)

lemma create_token_session:
  "fst (create_token fs u tok now) = tok \<and>
   load_sessions (snd (create_token fs u tok now)) tok
     = Some \<lparr>session_username = u, session_createdAt = now\<rparr>"
  by (simp add: create_token_def Let_def)

lemma load_users_simp:
  "load_users fs = (case users_json fs of None \<Rightarrow> [] | Some us \<Rightarrow> us)"
  by (simp add: load_users_def read_json_def split: option.splits)

lemma load_users_save_users [simp]: "load_users (save_users fs us) = us"
  by (simp add: load_users_simp save_users_def)

lemma load_users_save_todos [simp]: "load_users (save_todos_map fs m) = load_users fs"
  by (simp add: load_users_simp save_todos_map_def)

lemma load_users_save_sessions [simp]: "load_users (save_sessions fs m) = load_users fs"
  by (simp add: load_users_simp save_sessions_def)

lemma strip_bob: "strip ''bob'' = ''bob''"
  by (simp add: strip_def isspace_def)

text \<open>
  C1, as stated, fails. A token is issued to ann; bob then signs up and logs in, and his
  login draws the same token (nothing checks a new token against the stored ones). The
  token has been in the sessions document all along, and the decorator now resolves it
  to bob, not to the user it was first issued for.
\<close>

theorem token_reissued:
  "fst (create_token (ann_files []) ''ann'' ''t2'' ''now'') = ''t2''
   \<and> load_sessions (snd (create_token (ann_files []) ''ann'' ''t2'' ''now'')) ''t2''
       = Some \<lparr>session_username = ''ann'', session_createdAt = ''now''\<rparr>
   \<and> fst (handle (\<lambda>salt pw. case pw of JStr x \<Rightarrow> Inr (salt @ x) | _ \<Rightarrow> Inl LibraryError)
              (\<lambda>h pw. case pw of JStr x \<Rightarrow> Inr (h = ''salt'' @ x) | _ \<Rightarrow> Inl LibraryError)
              (run (\<lambda>salt pw. case pw of JStr x \<Rightarrow> Inr (salt @ x) | _ \<Rightarrow> Inl LibraryError)
                   (\<lambda>h pw. case pw of JStr x \<Rightarrow> Inr (h = ''salt'' @ x) | _ \<Rightarrow> Inl LibraryError)
                   (snd (create_token (ann_files []) ''ann'' ''t2'' ''now''))
                   [Signup (JObj [''username'' \<mapsto> JStr ''bob'', ''password'' \<mapsto> JStr ''pw'']) ''salt'' ''now''])
              (Login (JObj [''username'' \<mapsto> JStr ''bob'', ''password'' \<mapsto> JStr ''pw'']) ''t2'' ''later''))
       = Response 200 (JObj [''ok'' \<mapsto> JBool True, ''token'' \<mapsto> JStr ''t2'',
                             ''user'' \<mapsto> JObj [''username'' \<mapsto> JStr ''bob'', ''createdAt'' \<mapsto> JStr ''now'']])
   \<and> token_required
         (run (\<lambda>salt pw. case pw of JStr x \<Rightarrow> Inr (salt @ x) | _ \<Rightarrow> Inl LibraryError)
              (\<lambda>h pw. case pw of JStr x \<Rightarrow> Inr (h = ''salt'' @ x) | _ \<Rightarrow> Inl LibraryError)
              (snd (create_token (ann_files []) ''ann'' ''t2'' ''now''))
              [Signup (JObj [''username'' \<mapsto> JStr ''bob'', ''password'' \<mapsto> JStr ''pw'']) ''salt'' ''now'',
               Login (JObj [''username'' \<mapsto> JStr ''bob'', ''password'' \<mapsto> JStr ''pw'']) ''t2'' ''later''])
         (bearer ''t2'') (\<lambda>u. (Response 200 (JStr u), ann_files []))
       = (Response 200 (JStr ''bob''), ann_files [])"
proof -
  let ?gen = "\<lambda>salt pw. case pw of JStr x \<Rightarrow> Inr (salt @ x) | _ \<Rightarrow> Inl LibraryError"
  let ?chk = "\<lambda>h pw. case pw of JStr x \<Rightarrow> Inr (h = ''salt'' @ x) | _ \<Rightarrow> Inl LibraryError"
  let ?body = "JObj [''username'' \<mapsto> JStr ''bob'', ''password'' \<mapsto> JStr ''pw'']"
  define fs1 where "fs1 = snd (create_token (ann_files []) ''ann'' ''t2'' ''now'')"
  define fs2 where "fs2 = snd (api_signup fs1 ?body ?gen ''salt'' ''now'')"
  have c: "fst (create_token (ann_files []) ''ann'' ''t2'' ''now'') = ''t2''"
      "load_sessions fs1 ''t2'' = Some \<lparr>session_username = ''ann'', session_createdAt = ''now''\<rparr>"
    using create_token_session[of "ann_files []" "''ann''" "''t2''" "''now''"]
    by (simp_all add: fs1_def)
  have u1: "load_users fs1 = []"
    by (simp add: fs1_def create_token_def Let_def) (simp add: load_users_simp ann_files_def)
  have u2: "load_users fs2 = [\<lparr>username = ''bob'', password_hash = ''saltpw'', createdAt = ''now''\<rparr>]"
    by (simp add: fs2_def api_signup_def raising_def Let_def py_or_def strip_bob u1)
  have l: "api_login fs2 ?body ?chk ''t2'' ''later''
      = (Response 200 (JObj [''ok'' \<mapsto> JBool True, ''token'' \<mapsto> JStr ''t2'',
                             ''user'' \<mapsto> JObj [''username'' \<mapsto> JStr ''bob'', ''createdAt'' \<mapsto> JStr ''now'']]),
         snd (create_token fs2 ''bob'' ''t2'' ''later''))"
    by (simp add: api_login_def raising_def Let_def py_or_def strip_bob u2 create_token_def)
  have s: "load_sessions (snd (create_token fs2 ''bob'' ''t2'' ''later'')) ''t2''
      = Some \<lparr>session_username = ''bob'', session_createdAt = ''later''\<rparr>"
    using create_token_session[of fs2 "''bob''" "''t2''" "''later''"] by simp
  have r1: "run ?gen ?chk fs1 [Signup ?body ''salt'' ''now''] = fs2"
    by (simp add: fs2_def)
  have r2: "run ?gen ?chk fs1 [Signup ?body ''salt'' ''now'', Login ?body ''t2'' ''later'']
      = snd (create_token fs2 ''bob'' ''t2'' ''later'')"
    by (simp add: fs2_def[symmetric] l)
  show ?thesis
    unfolding fs1_def[symmetric] r1 r2
    using c by (simp add: l token_required_ok[OF s])
qed

text \<open>
  C1, amended. \<^verbatim>\<open>create_token\<close> returns the token it drew and stores a session for it. Right
  after, and after any sequence of requests none of which is a login that draws this token
  again or a logout with this token, the decorator passes a request with the header
  \<^verbatim>\<open>Bearer\<close> + token to its handler as the user the token was issued for. Logout with the
  token then answers 200 \<^verbatim>\<open>{"ok": true}\<close>; after it, and after any further sequence of
  requests none of which is a login that draws this token again, the decorator answers
  401 \<^verbatim>\<open>invalid token\<close> for that header without running the handler.
\<close>

theorem token_lifecycle:
  assumes "list_all (\<lambda>r. \<not> issues tok r \<and> \<not> revokes tok r) rs1"
    and "list_all (\<lambda>r. \<not> issues tok r) rs2"
  shows
    "(let (token, fs1) = create_token fs u tok now;
          fs2 = run gen chk fs1 rs1;
          (r, fs3) = api_logout fs2 (bearer token);
          fs4 = run gen chk fs3 rs2
      in token = tok
       \<and> token_required fs1 (bearer token) f = f u
       \<and> token_required fs2 (bearer token) f = f u
       \<and> r = Response 200 ok_body
       \<and> token_required fs3 (bearer token) f = (Response 401 (error_body ''invalid token''), fs3)
       \<and> token_required fs4 (bearer token) f = (Response 401 (error_body ''invalid token''), fs4))"
proof -
  define fs1 where "fs1 = snd (create_token fs u tok now)"
  define fs2 where "fs2 = run gen chk fs1 rs1"
  define fs3 where "fs3 = snd (api_logout fs2 (bearer tok))"
  define fs4 where "fs4 = run gen chk fs3 rs2"
  let ?s = "\<lparr>session_username = u, session_createdAt = now\<rparr>"
  have ct: "create_token fs u tok now = (tok, fs1)"
    using create_token_session[of fs u tok now] by (simp add: fs1_def prod_eq_iff)
  have s1: "load_sessions fs1 tok = Some ?s"
    using create_token_session[of fs u tok now] by (simp add: fs1_def)
  have s2: "load_sessions fs2 tok = Some ?s"
    unfolding fs2_def using run_keeps[OF assms(1)] s1 by simp
  have lo: "api_logout fs2 (bearer tok) = (Response 200 ok_body, fs3)"
    using api_logout_valid[OF s2] by (simp add: fs3_def)
  have s3: "load_sessions fs3 tok = None"
    unfolding fs3_def by (simp add: sessions_logout)
  have s4: "load_sessions fs4 tok = None"
    unfolding fs4_def using run_stays_out[OF assms(2) s3] .
  have a1: "token_required fs1 (bearer tok) f = f u"
    using token_required_ok[OF s1] by simp
  have a2: "token_required fs2 (bearer tok) f = f u"
    using token_required_ok[OF s2] by simp
  have a3: "token_required fs3 (bearer tok) f = (Response 401 (error_body ''invalid token''), fs3)"
    by (rule token_required_invalid[OF s3])
  have a4: "token_required fs4 (bearer tok) f = (Response 401 (error_body ''invalid token''), fs4)"
    by (rule token_required_invalid[OF s4])
  show ?thesis
    using a1 a2 a3 a4
    by (simp add: ct lo Let_def fs2_def[symmetric] fs4_def[symmetric])
qed

theorem token_lifecycle_witness:
  "list_all (\<lambda>r. \<not> issues ''t2'' r \<and> \<not> revokes ''t2'' r)
     [GetTasks (bearer ''t2''), Logout (bearer ''tok''), Login (JObj [''username'' \<mapsto> JStr ''ann'', ''password'' \<mapsto> JStr ''pw'']) ''t3'' ''now'', Import (bearer ''t2'') (JObj [''todos'' \<mapsto> JList []])]
   \<and> list_all (\<lambda>r. \<not> issues ''t2'' r)
     [Logout (bearer ''t2''), Signup (JObj [''username'' \<mapsto> JStr ''bob'', ''password'' \<mapsto> JStr ''pw'']) ''salt'' ''now'', Login (JObj [''username'' \<mapsto> JStr ''bob'', ''password'' \<mapsto> JStr ''pw'']) ''t4'' ''now'', GetTasks (bearer ''t2'')]
   \<and> (let (token, fs1) = create_token (ann_files []) ''ann'' ''t2'' ''now'';
          fs2 = run (\<lambda>salt pw. case pw of JStr x \<Rightarrow> Inr (salt @ x) | _ \<Rightarrow> Inl LibraryError)
                    (\<lambda>h pw. case pw of JStr x \<Rightarrow> Inr (h = ''salt'' @ x) | _ \<Rightarrow> Inl LibraryError) fs1
                  [GetTasks (bearer ''t2''), Logout (bearer ''tok''), Login (JObj [''username'' \<mapsto> JStr ''ann'', ''password'' \<mapsto> JStr ''pw'']) ''t3'' ''now'', Import (bearer ''t2'') (JObj [''todos'' \<mapsto> JList []])];
          (r, fs3) = api_logout fs2 (bearer token);
          fs4 = run (\<lambda>salt pw. case pw of JStr x \<Rightarrow> Inr (salt @ x) | _ \<Rightarrow> Inl LibraryError)
                    (\<lambda>h pw. case pw of JStr x \<Rightarrow> Inr (h = ''salt'' @ x) | _ \<Rightarrow> Inl LibraryError) fs3
                  [Logout (bearer ''t2''), Signup (JObj [''username'' \<mapsto> JStr ''bob'', ''password'' \<mapsto> JStr ''pw'']) ''salt'' ''now'', Login (JObj [''username'' \<mapsto> JStr ''bob'', ''password'' \<mapsto> JStr ''pw'']) ''t4'' ''now'', GetTasks (bearer ''t2'')]
      in token = ''t2''
       \<and> token_required fs1 (bearer token) (\<lambda>u. (Response 200 (JStr u), ann_files [])) = (\<lambda>u. (Response 200 (JStr u), ann_files [])) ''ann''
       \<and> token_required fs2 (bearer token) (\<lambda>u. (Response 200 (JStr u), ann_files [])) = (\<lambda>u. (Response 200 (JStr u), ann_files [])) ''ann''
       \<and> r = Response 200 ok_body
       \<and> token_required fs3 (bearer token) (\<lambda>u. (Response 200 (JStr u), ann_files [])) = (Response 401 (error_body ''invalid token''), fs3)
       \<and> token_required fs4 (bearer token) (\<lambda>u. (Response 200 (JStr u), ann_files [])) = (Response 401 (error_body ''invalid token''), fs4))"
proof -
  have h1: "list_all (\<lambda>r. \<not> issues ''t2'' r \<and> \<not> revokes ''t2'' r)
     [GetTasks (bearer ''t2''), Logout (bearer ''tok''), Login (JObj [''username'' \<mapsto> JStr ''ann'', ''password'' \<mapsto> JStr ''pw'']) ''t3'' ''now'', Import (bearer ''t2'') (JObj [''todos'' \<mapsto> JList []])]"
    by (simp add: bearer_def)
  have h2: "list_all (\<lambda>r. \<not> issues ''t2'' r)
     [Logout (bearer ''t2''), Signup (JObj [''username'' \<mapsto> JStr ''bob'', ''password'' \<mapsto> JStr ''pw'']) ''salt'' ''now'', Login (JObj [''username'' \<mapsto> JStr ''bob'', ''password'' \<mapsto> JStr ''pw'']) ''t4'' ''now'', GetTasks (bearer ''t2'')]"
    by simp
  show ?thesis
    using h1 h2
      token_lifecycle[where fs="ann_files []" and u="''ann''" and now="''now''"
        and gen="(\<lambda>salt pw. case pw of JStr x \<Rightarrow> Inr (salt @ x) | _ \<Rightarrow> Inl LibraryError)"
        and chk="(\<lambda>h pw. case pw of JStr x \<Rightarrow> Inr (h = ''salt'' @ x) | _ \<Rightarrow> Inl LibraryError)"
        and f="(\<lambda>u. (Response 200 (JStr u), ann_files []))", OF h1 h2]
    by blast
qed

end
